theory Spec2Isabelle
  imports Main "HOL-Library.Multiset" "HOL-Library.Word"
begin

section \<open>Python strings and integers\<close>

text \<open>
  The program is \<^verbatim>\<open>local-server/kodi-douban-scraper-2in1.py\<close>. A Python \<^verbatim>\<open>str\<close> is a
  sequence of code points. File names, cache keys and year fields are modelled as
  \<^typ>\<open>string\<close>, a \<^typ>\<open>char\<close> standing for the code point of the same number
  (0 to 255, that is ASCII and Latin-1), on which the built-in string methods are
  modelled exactly. Catalogue titles, which hold CJK text, are lists of code points
  (\<^typ>\<open>nat list\<close>). Python integers are unbounded: \<^typ>\<open>int\<close>. \<^verbatim>\<open>int()\<close> is
  modelled as CPython 3.6 to 3.10 has it (underscores between digits accepted, no limit
  on the number of digits).
\<close>

datatype error = ValueError | IndexError | AssertionError | RequestException

definition code :: "char \<Rightarrow> nat" where
  "code c = of_char c"

text \<open>\<^verbatim>\<open>str.lower()\<close> on code points below 256: A-Z and the Latin-1 capitals
  U+00C0..U+00DE (but the multiplication sign U+00D7) move up by 32.\<close>

definition lower_char :: "char \<Rightarrow> char" where
  "lower_char c =
     (if (65 \<le> code c \<and> code c \<le> 90) \<or> (192 \<le> code c \<and> code c \<le> 222 \<and> code c \<noteq> 215)
      then char_of (code c + 32) else c)"

definition lower :: "string \<Rightarrow> string" where
  "lower s = map lower_char s"

text \<open>\<^verbatim>\<open>s.replace(old, new)\<close> for one-character \<^verbatim>\<open>old\<close> and \<^verbatim>\<open>new\<close>.\<close>

definition replace_char :: "char \<Rightarrow> char \<Rightarrow> string \<Rightarrow> string" where
  "replace_char old new s = map (\<lambda>c. if c = old then new else c) s"

text \<open>The white space of \<^verbatim>\<open>str.strip()\<close> and \<^verbatim>\<open>str.split()\<close> (\<^verbatim>\<open>str.isspace\<close>) below 256.\<close>

definition isspace :: "char \<Rightarrow> bool" where
  "isspace c = ((9 \<le> code c \<and> code c \<le> 13) \<or> (28 \<le> code c \<and> code c \<le> 32)
                 \<or> code c = 133 \<or> code c = 160)"

definition strip :: "string \<Rightarrow> string" where
  "strip s = rev (dropWhile isspace (rev (dropWhile isspace s)))"

text \<open>\<^verbatim>\<open>s.split()\<close>: the maximal runs of non-space characters; \<open>cur\<close> is the token
  being read.\<close>

fun split_from :: "string \<Rightarrow> string \<Rightarrow> string list" where
  "split_from cur [] = (if cur = [] then [] else [cur])"
| "split_from cur (c # cs) =
     (if isspace c then (if cur = [] then split_from [] cs else cur # split_from [] cs)
      else split_from (cur @ [c]) cs)"

definition str_split :: "string \<Rightarrow> string list" where
  "str_split s = split_from [] s"

text \<open>\<^verbatim>\<open>sep.join(xs)\<close>.\<close>

fun join :: "'a list \<Rightarrow> 'a list list \<Rightarrow> 'a list" where
  "join sep [] = []"
| "join sep [x] = x"
| "join sep (x # y # ys) = x @ sep @ join sep (y # ys)"

text \<open>\<^verbatim>\<open>s.find(sub)\<close>: the lowest index at which \<^verbatim>\<open>sub\<close> occurs, or -1.\<close>

definition startswith :: "'a list \<Rightarrow> 'a list \<Rightarrow> bool" where
  "startswith s sub = (take (length sub) s = sub)"

fun find_from :: "nat \<Rightarrow> 'a list \<Rightarrow> 'a list \<Rightarrow> int" where
  "find_from i [] sub = (if sub = [] then int i else -1)"
| "find_from i (c # cs) sub =
     (if startswith (c # cs) sub then int i else find_from (Suc i) cs sub)"

definition str_find :: "'a list \<Rightarrow> 'a list \<Rightarrow> int" where
  "str_find s sub = find_from 0 s sub"

text \<open>\<^verbatim>\<open>sub in s\<close> on strings.\<close>

definition str_contains :: "'a list \<Rightarrow> 'a list \<Rightarrow> bool" where
  "str_contains s sub = (str_find s sub \<noteq> -1)"

text \<open>\<^verbatim>\<open>s[:end]\<close>: a negative \<^verbatim>\<open>end\<close> counts from the end of \<^verbatim>\<open>s\<close>.\<close>

definition slice_to :: "'a list \<Rightarrow> int \<Rightarrow> 'a list" where
  "slice_to s e = (if e < 0 then take (nat (int (length s) + e)) s else take (nat e) s)"

text \<open>\<^verbatim>\<open>xs[i]\<close>: a negative index counts from the end; out of range raises.\<close>

definition list_get :: "'a list \<Rightarrow> int \<Rightarrow> error + 'a" where
  "list_get xs i =
     (if 0 \<le> i \<and> i < int (length xs) then Inr (xs ! nat i)
      else if i < 0 \<and> - int (length xs) \<le> i then Inr (xs ! nat (int (length xs) + i))
      else Inl IndexError)"

text \<open>
  \<^verbatim>\<open>int(s)\<close> on a string, base 10: white space around (the C \<^verbatim>\<open>isspace\<close> set, and
  the non-ASCII spaces U+0085 and U+00A0, which CPython turns into blanks first), an
  optional sign, then decimal digits with single underscores between them. \<open>None\<close> is
  \<^verbatim>\<open>ValueError\<close>.
\<close>

definition is_digit :: "char \<Rightarrow> bool" where
  "is_digit c = (48 \<le> code c \<and> code c \<le> 57)"

definition int_isspace :: "char \<Rightarrow> bool" where
  "int_isspace c = ((9 \<le> code c \<and> code c \<le> 13) \<or> code c = 32 \<or> code c = 133 \<or> code c = 160)"

fun int_body :: "bool \<Rightarrow> string \<Rightarrow> bool" where
  "int_body prev_digit [] = prev_digit"
| "int_body prev_digit (c # cs) =
     (if is_digit c then int_body True cs
      else if c = CHR ''_'' \<and> prev_digit then int_body False cs
      else False)"

definition digits_value :: "string \<Rightarrow> int" where
  "digits_value ds = foldl (\<lambda>a c. 10 * a + (int (code c) - 48)) 0 (filter is_digit ds)"

definition py_int :: "string \<Rightarrow> int option" where
  "py_int s =
     (let s1 = dropWhile int_isspace s;
          neg = (case s1 of c # _ \<Rightarrow> c = CHR ''-'' | [] \<Rightarrow> False);
          s2 = (case s1 of c # cs \<Rightarrow> (if c = CHR ''+'' \<or> c = CHR ''-'' then cs else s1) | [] \<Rightarrow> s1);
          body = takeWhile (\<lambda>c. is_digit c \<or> c = CHR ''_'') s2;
          rest = dropWhile (\<lambda>c. is_digit c \<or> c = CHR ''_'') s2
      in if int_body False body \<and> dropWhile int_isspace rest = []
         then Some (if neg then - digits_value body else digits_value body)
         else None)"

section \<open>The file name normalizer\<close>

definition CLEAR_SUFFIX :: "string list" where
  "CLEAR_SUFFIX =
     [''repack'', ''unrated'',
      ''480p'', ''720p'', ''1080i'', ''1080p'', ''4k'',
      ''web'', ''web-dl'', ''bluray'', ''blu-ray'', ''hdtv'',
      ''dd5.1'', ''dts'', ''ddp5.1'', ''avc'',
      ''x264'', ''x.264'', ''h264'', ''h.264'']"

text \<open>
  \<^verbatim>\<open>REGEX_SEASON_EPISODE = re.compile('\.s([0-9]+)(e([0-9]+))?')\<close>.
  \<open>regex_match_at s\<close> is a match that starts at the head of \<open>s\<close>: groups 1 and 3.
  Both digit runs are greedy, and the optional group takes part only when an
  \<^verbatim>\<open>e\<close> and at least one digit follow the first run.
\<close>

definition regex_match_at :: "string \<Rightarrow> (string \<times> string option) option" where
  "regex_match_at s =
     (case s of
        c1 # c2 # rest \<Rightarrow>
          (if c1 = CHR ''.'' \<and> c2 = CHR ''s'' \<and> takeWhile is_digit rest \<noteq> []
           then Some (takeWhile is_digit rest,
                  (case dropWhile is_digit rest of
                     c3 # rest2 \<Rightarrow>
                       (if c3 = CHR ''e'' \<and> takeWhile is_digit rest2 \<noteq> []
                        then Some (takeWhile is_digit rest2) else None)
                   | [] \<Rightarrow> None))
           else None)
      | _ \<Rightarrow> None)"

text \<open>\<^verbatim>\<open>REGEX_SEASON_EPISODE.search(name)\<close>: the leftmost match, with its start.\<close>

fun regex_search_from :: "nat \<Rightarrow> string \<Rightarrow> (nat \<times> string \<times> string option) option" where
  "regex_search_from i [] = None"
| "regex_search_from i (c # cs) =
     (case regex_match_at (c # cs) of
        Some g \<Rightarrow> Some (i, g)
      | None \<Rightarrow> regex_search_from (Suc i) cs)"

definition REGEX_SEASON_EPISODE_search :: "string \<Rightarrow> (nat \<times> string \<times> string option) option" where
  "REGEX_SEASON_EPISODE_search name = regex_search_from 0 name"

text \<open>
  Lines 170 to 179: season, episode and the first value of \<^verbatim>\<open>end\<close>. Group 3 is a
  digit run when it takes part in the match, so \<^verbatim>\<open>if episode:\<close> tests that it did.
  The two \<^verbatim>\<open>int()\<close> calls on the groups are the only statements of the function that
  can raise.
\<close>

definition match_season_episode :: "string \<Rightarrow> error + (int option \<times> int option \<times> int)" where
  "match_season_episode name =
     (case REGEX_SEASON_EPISODE_search name of
        None \<Rightarrow> Inr (None, None, int (length name))
      | Some (start, season, episode) \<Rightarrow>
          (case py_int season of
             None \<Rightarrow> Inl ValueError
           | Some season' \<Rightarrow>
               (case episode of
                  None \<Rightarrow> Inr (Some season', None, min (int (length name)) (int start))
                | Some ep \<Rightarrow>
                    (case py_int ep of
                       None \<Rightarrow> Inl ValueError
                     | Some episode' \<Rightarrow>
                         Inr (Some season', Some episode',
                              min (int (length name)) (int start))))))"

text \<open>The loop over \<^verbatim>\<open>CLEAR_SUFFIX\<close>, lines 181 to 184.\<close>

definition clear_suffix_end :: "string \<Rightarrow> int \<Rightarrow> int" where
  "clear_suffix_end name end0 =
     foldl (\<lambda>e suffix. let idx = str_find name suffix in if idx \<noteq> -1 then min e idx else e)
       end0 CLEAR_SUFFIX"

text \<open>Lines 186 to 196: from the truncated name to title and year.\<close>

definition title_year :: "string \<Rightarrow> string \<times> int option" where
  "title_year head =
     (let split = str_split (strip (replace_char CHR ''.'' CHR '' '' head));
          year = (if length split > 1 then py_int (last split) else None);
          split' = (case year of
                      Some y \<Rightarrow> (if 1900 \<le> y \<and> y \<le> 2100 then butlast split else split)
                    | None \<Rightarrow> split)
      in (join '' '' split', year))"

text \<open>\<^verbatim>\<open>get_title_from_filename(filename)\<close>, lines 169 to 196.\<close>

definition get_title_from_filename ::
  "string \<Rightarrow> error + (string \<times> int option \<times> int option \<times> int option)" where
  "get_title_from_filename filename =
     (let name = replace_char CHR '' '' CHR ''.'' (lower filename)
      in case match_season_episode name of
           Inl err \<Rightarrow> Inl err
         | Inr (season, episode, end1) \<Rightarrow>
             (let (title, year) = title_year (slice_to name (clear_suffix_end name end1))
              in Inr (title, year, season, episode)))"

section \<open>Ranking the search results\<close>

type_synonym ustring = "nat list"

text \<open>
  \<^verbatim>\<open>DIGITS_TO_CHINESE_NUMBER\<close>, line 38: the eleven one-character numerals for 0 to 10
  (U+96F6, U+4E00, U+4E8C, U+4E09, U+56DB, U+4E94, U+516D, U+4E03, U+516B, U+4E5D,
  U+5341), then U+5341 before each of the numerals for 1 to 9.
\<close>

definition DIGITS_TO_CHINESE_NUMBER :: "ustring list" where
  "DIGITS_TO_CHINESE_NUMBER =
     map (\<lambda>s. [s]) [38646, 19968, 20108, 19977, 22235, 20116, 20845, 19971, 20843, 20061, 21313]
     @ map (\<lambda>s. [21313, s]) [19968, 20108, 19977, 22235, 20116, 20845, 19971, 20843, 20061]"

text \<open>The format string of line 222: U+7B2C, the numeral, U+5B63.\<close>

definition season_marker :: "ustring \<Rightarrow> ustring" where
  "season_marker chinese = [31532] @ chinese @ [23395]"

text \<open>
  A subject of the search response: a JSON object of which the program reads
  \<^verbatim>\<open>id\<close>, \<^verbatim>\<open>title\<close> (a string) and \<^verbatim>\<open>year\<close> (a string, or no such key).
\<close>

record subject =
  s_id :: string
  s_title :: ustring
  s_year :: "string option"

text \<open>Lines 214 to 217: any exception of \<^verbatim>\<open>int(subject['year'])\<close> gives \<^verbatim>\<open>None\<close>.\<close>

definition subject_year :: "subject \<Rightarrow> int option" where
  "subject_year subject = (case s_year subject of None \<Rightarrow> None | Some y \<Rightarrow> py_int y)"

text \<open>The condition whose negation is tested in line 218.\<close>

definition year_compatible :: "int option \<Rightarrow> int option \<Rightarrow> bool" where
  "year_compatible sy year =
     (case sy of
        None \<Rightarrow> True
      | Some sy' \<Rightarrow> (case year of None \<Rightarrow> True | Some y \<Rightarrow> sy' - 1 \<le> y \<and> y \<le> sy' + 1))"

text \<open>
  The loop of lines 213 to 227 over the subjects still to visit; \<open>subjects\<close> is the
  deque, its left end at the head of the list.
\<close>

fun GetSearchResults_loop ::
  "int option \<Rightarrow> int option \<Rightarrow> subject list \<Rightarrow> subject list \<Rightarrow> error + subject list" where
  "GetSearchResults_loop year season subjects [] = Inr subjects"
| "GetSearchResults_loop year season subjects (subject # rest) =
     (if \<not> year_compatible (subject_year subject) year
      then GetSearchResults_loop year season subjects rest
      else
        (case season of
           None \<Rightarrow> GetSearchResults_loop year season (subjects @ [subject]) rest
         | Some n \<Rightarrow>
             (case list_get DIGITS_TO_CHINESE_NUMBER n of
                Inl e \<Rightarrow> Inl e
              | Inr chinese \<Rightarrow>
                  (if str_contains (s_title subject) (season_marker chinese)
                   then GetSearchResults_loop year season (subject # subjects) rest
                   else GetSearchResults_loop year season (subjects @ [subject]) rest))))"

text \<open>Lines 212 to 227: the deque starts empty; the result is read from its left end.\<close>

definition GetSearchResults_subjects ::
  "subject list \<Rightarrow> int option \<Rightarrow> int option \<Rightarrow> error + subject list" where
  "GetSearchResults_subjects value_subjects year season =
     GetSearchResults_loop year season [] value_subjects"

section \<open>The cache\<close>

text \<open>
  The two tables of \<^verbatim>\<open>cache.db\<close>, each with a \<^verbatim>\<open>UNIQUE\<close> key column: a table is the
  map from its keys to its values, a table not yet created is the empty map
  (\<^verbatim>\<open>CREATE TABLE IF NOT EXISTS\<close> makes no row). SQLite's 64-bit bound on \<^verbatim>\<open>INT\<close> is
  left out.
\<close>

record db =
  cache :: "string \<rightharpoonup> string"
  stats :: "string \<rightharpoonup> int"

text \<open>
  The application: the committed content of the file, and \<^verbatim>\<open>g._database\<close>, the open
  connection of the current request with its view of the tables (uncommitted writes
  included).
\<close>

record app =
  db_file :: db
  conn :: "db option"

type_synonym bytes = "8 word list"

text \<open>What the program reads of a \<^verbatim>\<open>requests\<close> response: \<^verbatim>\<open>r.json()\<close> (which raises on a
  body that is not JSON), \<^verbatim>\<open>r.content\<close> and \<^verbatim>\<open>r.text\<close>.\<close>

record 'j response =
  resp_json :: "error + 'j"
  resp_content :: bytes
  resp_text :: string

text \<open>
  The library codecs, parameters of the model: \<^verbatim>\<open>json.dumps(v, indent=2)\<close>,
  \<^verbatim>\<open>json.loads\<close>, \<^verbatim>\<open>str(base64.encodebytes(b), 'ascii')\<close> and
  \<^verbatim>\<open>base64.decodebytes(bytes(s, 'utf-8'))\<close>, over any type \<open>'j\<close> of JSON values.
\<close>

record 'j codecs =
  json_dumps :: "'j \<Rightarrow> string"
  json_loads :: "string \<Rightarrow> error + 'j"
  b64_encode :: "bytes \<Rightarrow> string"
  b64_decode :: "string \<Rightarrow> error + bytes"

datatype 'j payload = Json 'j | Bytes bytes | Str string

definition fresh_db :: db where
  "fresh_db = \<lparr>cache = Map.empty, stats = Map.empty\<rparr>"

text \<open>\<^verbatim>\<open>get_db()\<close>: the request's connection, opened on the file at the first call.\<close>

definition get_db :: "app \<Rightarrow> app" where
  "get_db a = (case conn a of None \<Rightarrow> a\<lparr>conn := Some (db_file a)\<rparr> | Some _ \<Rightarrow> a)"

definition on_conn :: "(db \<Rightarrow> db) \<Rightarrow> app \<Rightarrow> app" where
  "on_conn f a = (case conn a of None \<Rightarrow> a | Some v \<Rightarrow> a\<lparr>conn := Some (f v)\<rparr>)"

text \<open>\<^verbatim>\<open>SELECT value FROM cache WHERE key=?\<close> and \<^verbatim>\<open>fetchone()\<close>.\<close>

definition select_value :: "app \<Rightarrow> string \<Rightarrow> string option" where
  "select_value a key = (case conn a of None \<Rightarrow> None | Some v \<Rightarrow> cache v key)"

text \<open>\<^verbatim>\<open>UPDATE stats SET value=value+1 WHERE key=?\<close>: it changes the rows that exist.\<close>

definition update_stats :: "string \<Rightarrow> db \<Rightarrow> db" where
  "update_stats k v = (case stats v k of None \<Rightarrow> v | Some n \<Rightarrow> v\<lparr>stats := (stats v)(k \<mapsto> n + 1)\<rparr>)"

text \<open>\<^verbatim>\<open>INSERT OR REPLACE INTO cache (key, value) VALUES (?, ?)\<close>.\<close>

definition insert_or_replace :: "string \<Rightarrow> string \<Rightarrow> db \<Rightarrow> db" where
  "insert_or_replace key value_str v = v\<lparr>cache := (cache v)(key \<mapsto> value_str)\<rparr>"

definition commit :: "app \<Rightarrow> app" where
  "commit a = (case conn a of None \<Rightarrow> a | Some v \<Rightarrow> a\<lparr>db_file := v\<rparr>)"

text \<open>\<^verbatim>\<open>close_connection\<close>, the teardown of a request: what was not committed is lost.\<close>

definition close_connection :: "app \<Rightarrow> app" where
  "close_connection a = a\<lparr>conn := None\<rparr>"

text \<open>
  Calling \<^verbatim>\<open>func()\<close>. The upstream call reads and changes the world outside the
  program (\<open>'w\<close>); the number beside it counts the calls made so far.
\<close>

definition invoke :: "('w \<Rightarrow> (error + 'r) \<times> 'w) \<Rightarrow> 'w \<times> nat \<Rightarrow> (error + 'r) \<times> 'w \<times> nat" where
  "invoke func env = (case env of (w, n) \<Rightarrow> (case func w of (r, w') \<Rightarrow> (r, w', Suc n)))"

text \<open>Lines 77 to 84: decoding a stored row.\<close>

definition decode_row :: "'j codecs \<Rightarrow> string \<Rightarrow> string \<Rightarrow> error + 'j payload" where
  "decode_row cd type row_value =
     (if type = ''json'' then map_sum id Json (json_loads cd row_value)
      else if type = ''bytes'' then map_sum id Bytes (b64_decode cd row_value)
      else if type = ''str'' then Inr (Str row_value)
      else Inl AssertionError)"

text \<open>Lines 87 to 97: the value of a response and the string stored for it.\<close>

definition encode_response :: "'j codecs \<Rightarrow> string \<Rightarrow> 'j response \<Rightarrow> error + ('j payload \<times> string)" where
  "encode_response cd type r =
     (if type = ''json'' then
        (case resp_json r of Inl e \<Rightarrow> Inl e | Inr v \<Rightarrow> Inr (Json v, json_dumps cd v))
      else if type = ''bytes'' then Inr (Bytes (resp_content r), b64_encode cd (resp_content r))
      else if type = ''str'' then Inr (Str (resp_text r), resp_text r)
      else Inl AssertionError)"

text \<open>\<^verbatim>\<open>cache_get(key, func, type)\<close>, lines 67 to 100.\<close>

definition cache_get ::
  "'j codecs \<Rightarrow> string \<Rightarrow> ('w \<Rightarrow> (error + 'j response) \<times> 'w) \<Rightarrow> string \<Rightarrow>
     app \<times> 'w \<times> nat \<Rightarrow> (error + 'j payload) \<times> app \<times> 'w \<times> nat" where
  "cache_get cd key func type st =
     (case st of (a, env) \<Rightarrow>
        if type \<noteq> ''json'' \<and> type \<noteq> ''bytes'' then (Inl AssertionError, a, env)
        else
          (let a1 = get_db a;
               row = select_value a1 key;
               a2 = on_conn (update_stats ''num_query'') a1
           in case row of
                Some row_value \<Rightarrow>
                  (decode_row cd type row_value,
                   commit (on_conn (update_stats ''num_hit'') a2), env)
              | None \<Rightarrow>
                  (case invoke func env of
                     (Inl e, env') \<Rightarrow> (Inl e, a2, env')
                   | (Inr r, env') \<Rightarrow>
                       (case encode_response cd type r of
                          Inl e \<Rightarrow> (Inl e, a2, env')
                        | Inr (v, value_str) \<Rightarrow>
                            (Inr v, commit (on_conn (insert_or_replace key value_str) a2), env')))))"

text \<open>
  One request that looks a key up: a new application context (no connection yet) on
  the file, \<^verbatim>\<open>cache_get\<close>, then the teardown. It returns the file as the next request
  finds it.
\<close>

definition request_cache_get ::
  "'j codecs \<Rightarrow> string \<Rightarrow> ('w \<Rightarrow> (error + 'j response) \<times> 'w) \<Rightarrow> string \<Rightarrow>
     db \<times> 'w \<times> nat \<Rightarrow> (error + 'j payload) \<times> db \<times> 'w \<times> nat" where
  "request_cache_get cd key func type st =
     (case st of (f, env) \<Rightarrow>
        (case cache_get cd key func type (\<lparr>db_file = f, conn = None\<rparr>, env) of
           (r, a, env') \<Rightarrow> (r, db_file (close_connection a), env')))"

section \<open>Notions used to state the properties\<close>

text \<open>A candidate passes the test of line 218.\<close>

definition year_kept :: "int option \<Rightarrow> subject \<Rightarrow> bool" where
  "year_kept year subject = year_compatible (subject_year subject) year"

text \<open>
  The year filter as the specification words it, on the fields of the candidate: a
  candidate is dropped when it has a year, that year parses as an integer, the target
  year is present, and the two differ by more than 1. A candidate with no year, or
  with a year that \<^verbatim>\<open>int()\<close> rejects, is never dropped.
\<close>

definition spec_year_dropped :: "int option \<Rightarrow> subject \<Rightarrow> bool" where
  "spec_year_dropped year subject =
     (case s_year subject of
        None \<Rightarrow> False
      | Some year_text \<Rightarrow>
          (case py_int year_text of
             None \<Rightarrow> False
           | Some sy \<Rightarrow> (case year of None \<Rightarrow> False | Some y \<Rightarrow> 1 < \<bar>y - sy\<bar>)))"

text \<open>The test of line 223 for the numeral \<open>chinese\<close>.\<close>

definition has_marker :: "ustring \<Rightarrow> subject \<Rightarrow> bool" where
  "has_marker chinese subject = str_contains (s_title subject) (season_marker chinese)"

text \<open>The stable partition of the specification: the candidates with the marker in input
  order, then the others in input order.\<close>

definition spec_season_partition :: "ustring \<Rightarrow> subject list \<Rightarrow> subject list" where
  "spec_season_partition chinese xs =
     filter (has_marker chinese) xs @ filter (\<lambda>s. \<not> has_marker chinese s) xs"

text \<open>Four candidates: two titles with the marker of season 1 and two without, the
  last with a year that is not a number.\<close>

definition subject_a :: subject where
  "subject_a = \<lparr>s_id = ''1'', s_title = [31532, 19968, 23395], s_year = Some ''2013''\<rparr>"

definition subject_b :: subject where
  "subject_b = \<lparr>s_id = ''2'', s_title = [65, 31532, 19968, 23395], s_year = None\<rparr>"

definition subject_c :: subject where
  "subject_c = \<lparr>s_id = ''3'', s_title = [65, 66], s_year = Some ''2010''\<rparr>"

definition subject_d :: subject where
  "subject_d = \<lparr>s_id = ''4'', s_title = [67], s_year = Some ''N/A''\<rparr>"

text \<open>The title of a first run as the second run reads it (line 169).\<close>

definition dotted :: "string \<Rightarrow> string" where
  "dotted title = replace_char CHR '' '' CHR ''.'' (lower title)"

text \<open>What every token of a title is: not empty, free of white space and dots, in lower
  case.\<close>

definition token_ok :: "string \<Rightarrow> bool" where
  "token_ok tok = (tok \<noteq> [] \<and> (\<forall>c\<in>set tok. \<not> isspace c \<and> c \<noteq> CHR ''.'' \<and> lower_char c = c))"

text \<open>The two values of \<^verbatim>\<open>type\<close> that pass the assertion of line 68.\<close>

definition valid_type :: "string \<Rightarrow> bool" where
  "valid_type type = (type = ''json'' \<or> type = ''bytes'')"

text \<open>What the library promises of its codecs: decoding an encoded value gives it back.\<close>

definition roundtrip :: "'j codecs \<Rightarrow> bool" where
  "roundtrip cd = ((\<forall>v. json_loads cd (json_dumps cd v) = Inr v) \<and>
                   (\<forall>b. b64_decode cd (b64_encode cd b) = Inr b))"

text \<open>The file and the world after \<open>k\<close> further requests for the same key.\<close>

definition after_requests ::
  "'j codecs \<Rightarrow> string \<Rightarrow> ('w \<Rightarrow> (error + 'j response) \<times> 'w) \<Rightarrow> string \<Rightarrow> nat \<Rightarrow>
     db \<times> 'w \<times> nat \<Rightarrow> db \<times> 'w \<times> nat" where
  "after_requests cd key func type k st =
     ((\<lambda>st'. snd (request_cache_get cd key func type st')) ^^ k) st"

text \<open>
  For the examples: codecs whose JSON values are their own text and whose bytes are
  stored one character each, an upstream call that answers, and one that fails. The
  world is the number of calls the upstream service has seen.
\<close>

definition plain_codecs :: "string codecs" where
  "plain_codecs =
     \<lparr>json_dumps = (\<lambda>v. v), json_loads = Inr,
      b64_encode = map (\<lambda>b. char_of (unat b)),
      b64_decode = (\<lambda>s. Inr (map (\<lambda>c. of_nat (of_char c)) s))\<rparr>"

definition fetch_ok :: "nat \<Rightarrow> (error + string response) \<times> nat" where
  "fetch_ok w =
     (Inr \<lparr>resp_json = Inr ''[1, 2]'', resp_content = [0, 255], resp_text = ''[1, 2]''\<rparr>, Suc w)"

definition fetch_fails :: "nat \<Rightarrow> (error + string response) \<times> nat" where
  "fetch_fails w = (Inl RequestException, Suc w)"

section \<open>The normalizer: season, episode and the examples\<close>

lemma digit_not_space: "is_digit c \<Longrightarrow> \<not> int_isspace c"
  by (auto simp: is_digit_def int_isspace_def)

lemma digit_not_sign: "is_digit c \<Longrightarrow> c \<noteq> CHR ''+'' \<and> c \<noteq> CHR ''-'' \<and> c \<noteq> CHR ''_''"
  by (auto simp: is_digit_def code_def)

lemma int_body_digits: "\<forall>c\<in>set ds. is_digit c \<Longrightarrow> int_body True ds"
  by (induction ds) auto

lemma int_body_digits_ne: "ds \<noteq> [] \<Longrightarrow> \<forall>c\<in>set ds. is_digit c \<Longrightarrow> int_body p ds"
  by (cases ds) (auto simp: int_body_digits)

lemma foldl_digits_nonneg:
  "0 \<le> a \<Longrightarrow> \<forall>c\<in>set ds. is_digit c \<Longrightarrow> 0 \<le> foldl (\<lambda>a c. 10 * a + (int (code c) - 48)) a ds"
  by (induction ds arbitrary: a) (auto simp: is_digit_def)

lemma digits_value_nonneg: "0 \<le> digits_value ds"
  unfolding digits_value_def by (rule foldl_digits_nonneg) auto

text \<open>\<^verbatim>\<open>int()\<close> never raises on a group of the regular expression.\<close>

lemma py_int_digits:
  assumes "ds \<noteq> []" and "\<forall>c\<in>set ds. is_digit c"
  shows "py_int ds = Some (digits_value ds)"
proof -
  obtain d rest where ds: "ds = d # rest" using assms(1) by (cases ds) auto
  have d: "is_digit d" using assms(2) ds by simp
  have s1: "dropWhile int_isspace ds = ds" using d ds by (simp add: digit_not_space)
  have tw: "takeWhile (\<lambda>c. is_digit c \<or> c = CHR ''_'') ds = ds"
    using assms(2) by (simp add: takeWhile_eq_all_conv)
  have dw: "dropWhile (\<lambda>c. is_digit c \<or> c = CHR ''_'') ds = []"
    using assms(2) by (simp add: dropWhile_eq_Nil_conv)
  have body: "int_body False ds" using assms by (rule int_body_digits_ne)
  have sg: "d \<noteq> CHR ''+''" "d \<noteq> CHR ''-''" using digit_not_sign[OF d] by auto
  show ?thesis
    unfolding py_int_def s1 using sg tw dw body by (simp add: ds Let_def)
qed

lemma regex_match_at_groups:
  assumes "regex_match_at s = Some (g1, g3)"
  shows "g1 \<noteq> [] \<and> (\<forall>c\<in>set g1. is_digit c) \<and>
         (\<forall>e. g3 = Some e \<longrightarrow> e \<noteq> [] \<and> (\<forall>c\<in>set e. is_digit c))"
  using assms
  by (auto simp: regex_match_at_def split: list.splits if_splits dest: set_takeWhileD)

lemma regex_search_from_groups:
  "regex_search_from i s = Some (st, g1, g3) \<Longrightarrow>
     g1 \<noteq> [] \<and> (\<forall>c\<in>set g1. is_digit c) \<and>
     (\<forall>e. g3 = Some e \<longrightarrow> e \<noteq> [] \<and> (\<forall>c\<in>set e. is_digit c))"
proof (induction i s rule: regex_search_from.induct)
  case (1 i)
  then show ?case by simp
next
  case (2 i c cs)
  show ?case
  proof (cases "regex_match_at (c # cs)")
    case None
    with 2 show ?thesis by simp
  next
    case (Some g)
    with 2 have "regex_match_at (c # cs) = Some (g1, g3)" by simp
    then show ?thesis by (rule regex_match_at_groups)
  qed
qed

lemma murder_s04e01:
  "get_title_from_filename ''How.to.Get.Away.with.Murder.S04E01.REPACK.720p.HDTV.x264-KILLERS.mkv''
     = Inr (''how to get away with murder'', None, Some 4, Some 1)"
  by code_simp

lemma match_season_episode_shape:
  "\<exists>s e end1. match_season_episode name = Inr (s, e, end1) \<and>
      (e \<noteq> None \<longrightarrow> s \<noteq> None) \<and> (\<forall>n. s = Some n \<longrightarrow> 0 \<le> n) \<and> (\<forall>n. e = Some n \<longrightarrow> 0 \<le> n)"
proof (cases "REGEX_SEASON_EPISODE_search name")
  case None
  then show ?thesis by (simp add: match_season_episode_def)
next
  case (Some m)
  obtain st g1 g3 where m: "m = (st, g1, g3)" by (cases m) auto
  have g: "g1 \<noteq> [] \<and> (\<forall>c\<in>set g1. is_digit c) \<and>
           (\<forall>e. g3 = Some e \<longrightarrow> e \<noteq> [] \<and> (\<forall>c\<in>set e. is_digit c))"
    using Some m regex_search_from_groups unfolding REGEX_SEASON_EPISODE_search_def by blast
  have s: "py_int g1 = Some (digits_value g1)" using g by (simp add: py_int_digits)
  show ?thesis
  proof (cases g3)
    case None
    then show ?thesis using Some m s
      by (simp add: match_season_episode_def digits_value_nonneg)
  next
    case (Some e)
    then have "py_int e = Some (digits_value e)" using g by (simp add: py_int_digits)
    then show ?thesis
      using \<open>REGEX_SEASON_EPISODE_search name = Some m\<close> m s Some
      by (simp add: match_season_episode_def digits_value_nonneg)
  qed
qed

text \<open>
  C9: for every file name the normalizer returns a result (it never raises); in the
  result an episode is present only when a season is, and a season or an episode
  that is present is not negative.
\<close>

theorem episode_implies_season:
  "\<exists>t y s e. get_title_from_filename f = Inr (t, y, s, e) \<and>
      (e \<noteq> None \<longrightarrow> s \<noteq> None) \<and> (\<forall>n. s = Some n \<longrightarrow> 0 \<le> n) \<and> (\<forall>n. e = Some n \<longrightarrow> 0 \<le> n)"
proof -
  let ?name = "replace_char CHR '' '' CHR ''.'' (lower f)"
  obtain s e end1 where m: "match_season_episode ?name = Inr (s, e, end1)"
      "(e \<noteq> None \<longrightarrow> s \<noteq> None) \<and> (\<forall>n. s = Some n \<longrightarrow> 0 \<le> n) \<and> (\<forall>n. e = Some n \<longrightarrow> 0 \<le> n)"
    using match_season_episode_shape[of ?name] by blast
  obtain t y where ty: "title_year (slice_to ?name (clear_suffix_end ?name end1)) = (t, y)"
    by (cases "title_year (slice_to ?name (clear_suffix_end ?name end1))") auto
  have "get_title_from_filename f = Inr (t, y, s, e)"
    by (simp add: get_title_from_filename_def Let_def m(1) ty)
  with m(2) show ?thesis by blast
qed

theorem episode_implies_season_witness:
  "get_title_from_filename ''How.to.Get.Away.with.Murder.S04E01.REPACK.720p.HDTV.x264-KILLERS.mkv''
     = Inr (''how to get away with murder'', None, Some 4, Some 1) \<and> (0::int) \<le> 4 \<and> (0::int) \<le> 1"
  using episode_implies_season
          [of "''How.to.Get.Away.with.Murder.S04E01.REPACK.720p.HDTV.x264-KILLERS.mkv''"]
  by (simp add: murder_s04e01)

text \<open>
  C8: the normalizer maps the three literal examples (Kingsman, Sense8, and the empty
  string, the list \<open>[]\<close>) to exactly the listed results.
\<close>

theorem normalizer_examples:
  "get_title_from_filename ''Kingsman.The.Secret.Service.2014.UNRATED.720p.BluRay.DD5.1.x264-PuTao''
     = Inr (''kingsman the secret service'', Some 2014, None, None) \<and>
   get_title_from_filename ''Sense8.S00E02.Amor.Vincit.Omnia.1080p.NF.WEB-DL.DD5.1.x264-NTb.mkv''
     = Inr (''sense8'', None, Some 0, Some 2) \<and>
   get_title_from_filename [] = Inr ([], None, None, None)"
  by code_simp

text \<open>
  C1: the claim is that a year is returned only when the last token lies in 1900 to
  2100. The program tests the range only to decide whether the token leaves the title
  (line 193) and returns whatever \<^verbatim>\<open>int()\<close> gave: for \<^verbatim>\<open>Apollo.13.720p\<close> the token 13
  stays in the title and is returned as the year as well.
\<close>

theorem year_out_of_range_returned:
  "get_title_from_filename ''Apollo.13.720p'' = Inr (''apollo 13'', Some 13, None, None)"
  by code_simp

section \<open>The normalizer on its own title\<close>

lemma isspace_blank: "isspace CHR '' ''"
  by (simp add: isspace_def code_def)

lemma lower_char_idem: "lower_char (lower_char c) = lower_char c"
proof -
  have "code c < 256" by (simp add: code_def)
  then show ?thesis
    by (auto simp: lower_char_def code_def)
qed

lemma lower_char_fix: "lower_char CHR '' '' = CHR '' ''" "lower_char CHR ''.'' = CHR ''.''"
  by (simp_all add: lower_char_def code_def)

subsection \<open>Splitting\<close>

lemma split_from_token:
  "\<forall>c\<in>set tok. \<not> isspace c \<Longrightarrow> split_from cur (tok @ rest) = split_from (cur @ tok) rest"
  by (induction tok arbitrary: cur) simp_all

text \<open>Splitting what was joined with blanks gives the tokens back.\<close>

lemma split_join:
  "\<forall>tok\<in>set toks. tok \<noteq> [] \<and> (\<forall>c\<in>set tok. \<not> isspace c) \<Longrightarrow>
     str_split (join '' '' toks) = toks"
proof (induction "'' ''" toks rule: join.induct)
  case 1
  show ?case by (simp add: str_split_def)
next
  case (2 x)
  then have "split_from [] (x @ []) = split_from ([] @ x) []"
    by (intro split_from_token) simp
  then show ?case using 2 by (simp add: str_split_def)
next
  case (3 x y ys)
  have "split_from [] (x @ ('' '' @ join '' '' (y # ys)))
          = split_from ([] @ x) ('' '' @ join '' '' (y # ys))"
    using 3 by (intro split_from_token) simp
  then show ?case using 3 by (simp add: str_split_def isspace_blank)
qed

lemma split_from_tokens:
  "tok \<in> set (split_from cur s) \<Longrightarrow> \<forall>c\<in>set cur. \<not> isspace c \<Longrightarrow>
     tok \<noteq> [] \<and> (\<forall>c\<in>set tok. \<not> isspace c \<and> (c \<in> set cur \<or> c \<in> set s))"
proof (induction s arbitrary: cur)
  case Nil
  then show ?case by (auto split: if_splits)
next
  case (Cons a s)
  show ?case
  proof (cases "isspace a")
    case True
    then have "tok = cur \<and> cur \<noteq> [] \<or> tok \<in> set (split_from [] s)"
      using Cons.prems(1) by (auto split: if_splits)
    then show ?thesis
    proof
      assume "tok = cur \<and> cur \<noteq> []"
      then show ?thesis using Cons.prems(2) by auto
    next
      assume "tok \<in> set (split_from [] s)"
      from Cons.IH[OF this] show ?thesis by auto
    qed
  next
    case False
    then have "tok \<in> set (split_from (cur @ [a]) s)" using Cons.prems(1) by simp
    from Cons.IH[OF this] False Cons.prems(2) show ?thesis by auto
  qed
qed

lemma str_split_tokens:
  "tok \<in> set (str_split s) \<Longrightarrow> tok \<noteq> [] \<and> (\<forall>c\<in>set tok. \<not> isspace c \<and> c \<in> set s)"
  unfolding str_split_def using split_from_tokens[of tok "[]" s] by simp

lemma split_from_spaces:
  "\<forall>c\<in>set ws. isspace c \<Longrightarrow> split_from cur ws = (if cur = [] then [] else [cur])"
  by (induction ws arbitrary: cur) simp_all

lemma split_from_trailing:
  "\<forall>c\<in>set ws. isspace c \<Longrightarrow> split_from cur (s @ ws) = split_from cur s"
  by (induction s arbitrary: cur) (simp_all add: split_from_spaces)

lemma split_from_leading:
  "split_from [] (dropWhile isspace s) = split_from [] s"
  by (induction s) simp_all

lemma rstrip_decomp:
  "\<exists>ws. s = rev (dropWhile isspace (rev s)) @ ws \<and> (\<forall>c\<in>set ws. isspace c)"
proof -
  have "rev s = takeWhile isspace (rev s) @ dropWhile isspace (rev s)" by simp
  then have "s = rev (dropWhile isspace (rev s)) @ rev (takeWhile isspace (rev s))"
    by (metis rev_append rev_rev_ident)
  moreover have "\<forall>c\<in>set (rev (takeWhile isspace (rev s))). isspace c"
    by (auto dest: set_takeWhileD)
  ultimately show ?thesis by blast
qed

text \<open>\<^verbatim>\<open>strip()\<close> before \<^verbatim>\<open>split()\<close> changes nothing.\<close>

lemma split_strip: "str_split (strip s) = str_split s"
proof -
  obtain ws where ws:
      "dropWhile isspace s = rev (dropWhile isspace (rev (dropWhile isspace s))) @ ws"
      "\<forall>c\<in>set ws. isspace c"
    using rstrip_decomp[of "dropWhile isspace s"] by blast
  have "split_from [] (strip s) = split_from [] (strip s @ ws)"
    using ws(2) by (simp add: split_from_trailing)
  also have "strip s @ ws = dropWhile isspace s" using ws(1) by (simp add: strip_def)
  finally show ?thesis by (simp add: str_split_def split_from_leading)
qed

subsection \<open>Joining\<close>

lemma map_join: "map g (join sep toks) = join (map g sep) (map (map g) toks)"
  by (induction sep toks rule: join.induct) simp_all

lemma map_tokens_id: "\<forall>tok\<in>set toks. \<forall>c\<in>set tok. g c = c \<Longrightarrow> map (map g) toks = toks"
  by (induction toks) (simp_all add: map_idI)

lemma lower_join:
  "\<forall>tok\<in>set toks. token_ok tok \<Longrightarrow> lower (join '' '' toks) = join '' '' toks"
  unfolding lower_def map_join
  by (simp add: lower_char_fix map_tokens_id token_ok_def)

lemma dots_join:
  assumes "\<forall>tok\<in>set toks. token_ok tok"
  shows "replace_char CHR '' '' CHR ''.'' (join '' '' toks) = join ''.'' toks"
proof -
  have "\<forall>tok\<in>set toks. \<forall>c\<in>set tok. (if c = CHR '' '' then CHR ''.'' else c) = c"
    using assms isspace_blank by (auto simp: token_ok_def)
  then show ?thesis
    unfolding replace_char_def map_join by (simp add: map_tokens_id)
qed

lemma blanks_join:
  assumes "\<forall>tok\<in>set toks. token_ok tok"
  shows "replace_char CHR ''.'' CHR '' '' (join ''.'' toks) = join '' '' toks"
proof -
  have "\<forall>tok\<in>set toks. \<forall>c\<in>set tok. (if c = CHR ''.'' then CHR '' '' else c) = c"
    using assms by (auto simp: token_ok_def)
  then show ?thesis
    unfolding replace_char_def map_join by (simp add: map_tokens_id)
qed

lemma dotted_join:
  "\<forall>tok\<in>set toks. token_ok tok \<Longrightarrow> dotted (join '' '' toks) = join ''.'' toks"
  by (simp add: dotted_def lower_join dots_join)

subsection \<open>Truncation\<close>

lemma clear_suffix_end_none:
  assumes "\<forall>suffix\<in>set CLEAR_SUFFIX. str_find name suffix = - 1"
  shows "clear_suffix_end name e = e"
proof -
  have "\<forall>suffix\<in>set xs. str_find name suffix = - 1 \<Longrightarrow>
        foldl (\<lambda>e suffix. let idx = str_find name suffix in if idx \<noteq> - 1 then min e idx else e)
          e xs = e"
    for xs
    by (induction xs arbitrary: e) simp_all
  then show ?thesis using assms unfolding clear_suffix_end_def by blast
qed

lemma slice_to_length: "slice_to s (int (length s)) = s"
  by (simp add: slice_to_def)

lemma slice_to_set: "set (slice_to s e) \<subseteq> set s"
  by (auto simp: slice_to_def dest: in_set_takeD)

subsection \<open>The first run and the second\<close>

lemma title_year_tokens:
  assumes "title_year head = (t, y)" and "\<forall>c\<in>set head. lower_char c = c"
  shows "\<exists>toks. t = join '' '' toks \<and> (\<forall>tok\<in>set toks. token_ok tok)"
proof -
  let ?s = "replace_char CHR ''.'' CHR '' '' head"
  let ?toks = "str_split (strip ?s)"
  have chars: "\<forall>c\<in>set ?s. c \<noteq> CHR ''.'' \<and> lower_char c = c"
    using assms(2) by (auto simp: replace_char_def lower_char_fix)
  have ok: "\<forall>tok\<in>set ?toks. token_ok tok"
  proof
    fix tok assume "tok \<in> set ?toks"
    then have "tok \<in> set (str_split ?s)" by (simp add: split_strip)
    from str_split_tokens[OF this] chars show "token_ok tok" by (auto simp: token_ok_def)
  qed
  then have ok': "\<forall>tok\<in>set (butlast ?toks). token_ok tok" by (auto dest: in_set_butlastD)
  have "t = join '' '' ?toks \<or> t = join '' '' (butlast ?toks)"
    using assms(1) by (auto simp: title_year_def Let_def split: option.splits if_splits)
  then show ?thesis using ok ok' by blast
qed

lemma name_lower: "\<forall>c\<in>set (replace_char CHR '' '' CHR ''.'' (lower f)). lower_char c = c"
  by (auto simp: replace_char_def lower_def lower_char_fix lower_char_idem)

text \<open>Every title is its tokens joined by single blanks.\<close>

lemma first_run:
  assumes "get_title_from_filename f = Inr (t, y, s, e)"
  shows "\<exists>toks. t = join '' '' toks \<and> (\<forall>tok\<in>set toks. token_ok tok)"
proof -
  let ?name = "replace_char CHR '' '' CHR ''.'' (lower f)"
  have "\<exists>e'. title_year (slice_to ?name e') = (t, y)"
    using assms
    by (auto simp: get_title_from_filename_def Let_def split: sum.splits prod.splits)
  then obtain e' where ty: "title_year (slice_to ?name e') = (t, y)" by blast
  have "\<forall>c\<in>set (slice_to ?name e'). lower_char c = c"
    using name_lower[of f] slice_to_set[of ?name e'] by blast
  with ty show ?thesis by (rule title_year_tokens)
qed

lemma second_run:
  assumes ok: "\<forall>tok\<in>set toks. token_ok tok"
    and re: "REGEX_SEASON_EPISODE_search (dotted (join '' '' toks)) = None"
    and sf: "\<forall>suffix\<in>set CLEAR_SUFFIX. str_find (dotted (join '' '' toks)) suffix = - 1"
    and yr: "length (str_split (join '' '' toks)) \<le> 1
             \<or> py_int (last (str_split (join '' '' toks))) = None"
  shows "get_title_from_filename (join '' '' toks) = Inr (join '' '' toks, None, None, None)"
proof -
  have sp: "str_split (join '' '' toks) = toks"
    using ok by (intro split_join) (auto simp: token_ok_def)
  have d: "replace_char CHR '' '' CHR ''.'' (lower (join '' '' toks)) = join ''.'' toks"
    using dotted_join[OF ok] by (simp add: dotted_def)
  have re': "REGEX_SEASON_EPISODE_search (join ''.'' toks) = None"
    using re by (simp add: dotted_join[OF ok])
  have sf': "\<forall>suffix\<in>set CLEAR_SUFFIX. str_find (join ''.'' toks) suffix = - 1"
    using sf by (simp add: dotted_join[OF ok])
  have ty: "title_year (join ''.'' toks) = (join '' '' toks, None)"
    using yr by (auto simp: title_year_def blanks_join[OF ok] split_strip sp Let_def)
  have m: "match_season_episode (join ''.'' toks) = Inr (None, None, int (length (join ''.'' toks)))"
    by (simp add: match_season_episode_def re')
  show ?thesis
    unfolding get_title_from_filename_def d
    by (simp add: m clear_suffix_end_none[OF sf'] slice_to_length ty Let_def)
qed

lemma kingsman:
  "get_title_from_filename ''Kingsman.The.Secret.Service.2014.UNRATED.720p.BluRay.DD5.1.x264-PuTao''
     = Inr (''kingsman the secret service'', Some 2014, None, None)"
  by code_simp

lemma kingsman_title:
  "REGEX_SEASON_EPISODE_search (dotted ''kingsman the secret service'') = None"
  "\<forall>suffix\<in>set CLEAR_SUFFIX. str_find (dotted ''kingsman the secret service'') suffix = - 1"
  "length (str_split ''kingsman the secret service'') \<le> 1
   \<or> py_int (last (str_split ''kingsman the secret service'')) = None"
  by code_simp+

text \<open>
  C6, as stated, fails. The title of \<^verbatim>\<open>Blade.Runner.2049.2017.1080p\<close> ends, once the
  year 2017 is taken, with the token 2049, which the second run takes as a year and
  drops. The title of \<^verbatim>\<open>x..264.foo\<close> joins, with one dot, to a name that begins with
  the suffix token \<^verbatim>\<open>x.264\<close>, and the second run truncates it to nothing.
\<close>

theorem renormalize_counterexample:
  "get_title_from_filename ''Blade.Runner.2049.2017.1080p''
     = Inr (''blade runner 2049'', Some 2017, None, None) \<and>
   get_title_from_filename ''blade runner 2049'' = Inr (''blade runner'', Some 2049, None, None) \<and>
   get_title_from_filename ''x..264.foo'' = Inr (''x 264 foo'', None, None, None) \<and>
   get_title_from_filename ''x 264 foo'' = Inr ([], None, None, None)"
  by code_simp

text \<open>
  C6, amended: when the title that the normalizer returns, in lower case and with its
  blanks turned into dots, holds no season marker and no suffix token, and the title
  has at most one token or a last token that does not parse as an integer, then the
  normalizer maps the title to the same title with year, season and episode absent.
\<close>

theorem renormalize_title:
  assumes "get_title_from_filename f = Inr (t, y, s, e)"
    and "REGEX_SEASON_EPISODE_search (dotted t) = None"
    and "\<forall>suffix\<in>set CLEAR_SUFFIX. str_find (dotted t) suffix = - 1"
    and "length (str_split t) \<le> 1 \<or> py_int (last (str_split t)) = None"
  shows "get_title_from_filename t = Inr (t, None, None, None)"
proof -
  obtain toks where "t = join '' '' toks" "\<forall>tok\<in>set toks. token_ok tok"
    using first_run[OF assms(1)] by blast
  then show ?thesis using assms(2-4) second_run by blast
qed

theorem renormalize_title_witness:
  "get_title_from_filename ''kingsman the secret service''
     = Inr (''kingsman the secret service'', None, None, None)"
  using kingsman kingsman_title by (rule renormalize_title)

section \<open>Ranking: the year filter and the season partition\<close>

lemma length_DIGITS: "length DIGITS_TO_CHINESE_NUMBER = 20"
  by (simp add: DIGITS_TO_CHINESE_NUMBER_def)

text \<open>The test of the code and the rule of the specification agree on every candidate.\<close>

lemma year_kept_iff: "year_kept year s = (\<not> spec_year_dropped year s)"
  by (auto simp: year_kept_def spec_year_dropped_def year_compatible_def subject_year_def
      split: option.splits)

text \<open>The loop, by induction on the subjects still to visit, for any deque.\<close>

lemma loop_no_season:
  "GetSearchResults_loop year None acc xs = Inr (acc @ filter (year_kept year) xs)"
  by (induction xs arbitrary: acc) (simp_all add: year_kept_def)

lemma loop_season_ok:
  assumes "list_get DIGITS_TO_CHINESE_NUMBER n = Inr chinese"
  shows "GetSearchResults_loop year (Some n) acc xs =
           Inr (rev (filter (has_marker chinese) (filter (year_kept year) xs)) @ acc
                @ filter (\<lambda>s. \<not> has_marker chinese s) (filter (year_kept year) xs))"
  using assms by (induction xs arbitrary: acc) (simp_all add: year_kept_def has_marker_def)

lemma loop_season_bad:
  assumes "list_get DIGITS_TO_CHINESE_NUMBER n = Inl e"
  shows "GetSearchResults_loop year (Some n) acc xs =
           (if \<exists>s\<in>set xs. year_kept year s then Inl e else Inr acc)"
  using assms by (induction xs arbitrary: acc) (simp_all add: year_kept_def)

lemma subjects_no_season:
  "GetSearchResults_subjects subjects year None = Inr (filter (year_kept year) subjects)"
  by (simp add: GetSearchResults_subjects_def loop_no_season)

lemma subjects_season_ok:
  assumes "list_get DIGITS_TO_CHINESE_NUMBER n = Inr chinese"
  shows "GetSearchResults_subjects subjects year (Some n) =
           Inr (rev (filter (has_marker chinese) (filter (year_kept year) subjects))
                @ filter (\<lambda>s. \<not> has_marker chinese s) (filter (year_kept year) subjects))"
  using assms by (simp add: GetSearchResults_subjects_def loop_season_ok)

lemma subjects_season_bad:
  assumes "list_get DIGITS_TO_CHINESE_NUMBER n = Inl e"
  shows "GetSearchResults_subjects subjects year (Some n) =
           (if \<exists>s\<in>set subjects. year_kept year s then Inl e else Inr [])"
  using assms by (simp add: GetSearchResults_subjects_def loop_season_bad)

lemma list_get_DIGITS_out:
  "20 \<le> n \<Longrightarrow> list_get DIGITS_TO_CHINESE_NUMBER n = Inl IndexError"
  by (simp add: list_get_def length_DIGITS)

lemma list_get_DIGITS_err:
  "list_get DIGITS_TO_CHINESE_NUMBER n = Inl e \<Longrightarrow> e = IndexError \<and> \<not> (- 20 \<le> n \<and> n < 20)"
  by (auto simp: list_get_def length_DIGITS split: if_splits)

lemma list_get_nth:
  "0 \<le> n \<Longrightarrow> n < int (length xs) \<Longrightarrow> list_get xs n = Inr (xs ! nat n)"
  by (simp add: list_get_def)

lemma mset_rev_partition: "mset (rev (filter P xs) @ filter (\<lambda>x. \<not> P x) xs) = mset xs"
  by (induction xs) auto

text \<open>The three example candidates.\<close>

lemma subjects_distinct:
  "subject_a \<noteq> subject_b" "subject_a \<noteq> subject_c" "subject_b \<noteq> subject_c"
  by (simp_all add: subject_a_def subject_b_def subject_c_def)

lemma nth_DIGITS_1: "DIGITS_TO_CHINESE_NUMBER ! Suc 0 = [19968]"
  by (simp add: DIGITS_TO_CHINESE_NUMBER_def)

lemma has_marker_abc:
  "has_marker [19968] subject_a" "has_marker [19968] subject_b" "\<not> has_marker [19968] subject_c"
  by (simp_all add: has_marker_def str_contains_def str_find_def startswith_def season_marker_def
      subject_a_def subject_b_def subject_c_def)

lemma py_int_years:
  "py_int ''2013'' = Some 2013" "py_int ''2010'' = Some 2010" "py_int ''N/A'' = None"
  by code_simp+

lemma subject_d_facts:
  "year_kept (Some 2014) subject_d" "\<not> has_marker [19968] subject_d"
  "subject_d \<noteq> subject_a" "subject_d \<noteq> subject_b" "subject_d \<noteq> subject_c"
  by (simp_all add: year_kept_def year_compatible_def subject_year_def py_int_years
      has_marker_def str_contains_def str_find_def startswith_def season_marker_def
      subject_a_def subject_b_def subject_c_def subject_d_def)

lemma spec_year_dropped_abcd:
  "\<not> spec_year_dropped (Some 2014) subject_a" "\<not> spec_year_dropped (Some 2014) subject_b"
  "spec_year_dropped (Some 2014) subject_c" "\<not> spec_year_dropped (Some 2014) subject_d"
  by (simp_all add: spec_year_dropped_def py_int_years
      subject_a_def subject_b_def subject_c_def subject_d_def)

lemma year_kept_abc:
  "year_kept (Some 2014) subject_a" "year_kept (Some 2014) subject_b"
  "\<not> year_kept (Some 2014) subject_c" "\<not> year_kept (Some 2019) subject_c"
  "year_kept None subject_a" "year_kept None subject_b" "year_kept None subject_c"
  by (simp_all add: year_kept_def year_compatible_def subject_year_def py_int_years
      subject_a_def subject_b_def subject_c_def)

lemma show_2019_s20:
  "get_title_from_filename ''Show.2019.S20'' = Inr (''show'', Some 2019, Some 20, None)"
  by code_simp

text \<open>
  C7: the candidates of the result are exactly those of the input that the year filter
  does not drop, each as often as in the input, where a candidate is dropped if and
  only if its year field is there and parses as an integer, the target year is present,
  and the two differ by more than 1; a candidate whose year is missing or does not
  parse, and every candidate when the target year is absent, is kept. The only other
  outcome of the ranking is the index error of a season outside the numeral table.
\<close>

theorem year_filter:
  "(case GetSearchResults_subjects subjects year season of
      Inr out \<Rightarrow> mset out = mset (filter (\<lambda>s. \<not> spec_year_dropped year s) subjects)
    | Inl e \<Rightarrow> e = IndexError \<and> (\<exists>n. season = Some n \<and> \<not> (- 20 \<le> n \<and> n < 20)))"
proof (cases season)
  case None
  then show ?thesis
    by (simp add: subjects_no_season year_kept_iff)
next
  case (Some n)
  show ?thesis
  proof (cases "list_get DIGITS_TO_CHINESE_NUMBER n")
    case (Inl e)
    then show ?thesis using Some list_get_DIGITS_err[OF Inl]
      by (auto simp: subjects_season_bad year_kept_iff filter_empty_conv)
  next
    case (Inr chinese)
    have "mset (rev (filter (has_marker chinese) (filter (year_kept year) subjects))
               @ filter (\<lambda>s. \<not> has_marker chinese s) (filter (year_kept year) subjects))
          = mset (filter (year_kept year) subjects)"
      by (rule mset_rev_partition)
    moreover have "filter (year_kept year) subjects
                   = filter (\<lambda>s. \<not> spec_year_dropped year s) subjects"
      by (rule filter_cong) (simp_all add: year_kept_iff)
    ultimately show ?thesis using Some
      by (simp only: subjects_season_ok[OF Inr] sum.case)
  qed
qed

theorem year_filter_witness:
  "GetSearchResults_subjects [subject_a, subject_c, subject_d, subject_b] (Some 2014) (Some 1)
     = Inr [subject_b, subject_a, subject_d] \<and>
   mset [subject_b, subject_a, subject_d]
     = mset (filter (\<lambda>s. \<not> spec_year_dropped (Some 2014) s)
               [subject_a, subject_c, subject_d, subject_b]) \<and>
   spec_year_dropped (Some 2014) subject_c \<and> \<not> spec_year_dropped (Some 2014) subject_d"
  using year_filter
          [where subjects = "[subject_a, subject_c, subject_d, subject_b]"
             and year = "Some 2014" and season = "Some 1"]
  by (simp add: subjects_season_ok list_get_nth length_DIGITS nth_DIGITS_1 has_marker_abc
      year_kept_abc subject_d_facts spec_year_dropped_abcd)

text \<open>
  C2, as stated, fails: two candidates that both carry the marker of season 1 come out
  in the reverse of their input order, because each is put at the left end of the
  deque (line 225).
\<close>

theorem season_partition_counterexample:
  "GetSearchResults_subjects [subject_a, subject_b] None (Some 1)
     \<noteq> Inr (spec_season_partition (DIGITS_TO_CHINESE_NUMBER ! nat 1)
              (filter (year_kept None) [subject_a, subject_b]))"
  by (simp add: subjects_season_ok list_get_nth length_DIGITS nth_DIGITS_1
      has_marker_abc year_kept_abc spec_season_partition_def subjects_distinct)

text \<open>
  C2, amended: for a season of the numeral table (0 to 19) the result is the candidates
  of the year-filtered input that carry the marker, in the reverse of their input
  order, followed by the other candidates in their input order.
\<close>

theorem season_partition_reversed_front:
  assumes "0 \<le> n" and "n < 20"
  shows "GetSearchResults_subjects subjects year (Some n) =
           Inr (rev (filter (has_marker (DIGITS_TO_CHINESE_NUMBER ! nat n))
                       (filter (year_kept year) subjects))
                @ filter (\<lambda>s. \<not> has_marker (DIGITS_TO_CHINESE_NUMBER ! nat n) s)
                    (filter (year_kept year) subjects))"
  using assms
  by (simp add: subjects_season_ok list_get_nth length_DIGITS)

theorem season_partition_reversed_front_witness:
  "GetSearchResults_subjects [subject_a, subject_c, subject_b] None (Some 1)
     = Inr [subject_b, subject_a, subject_c]"
  using season_partition_reversed_front
          [where n = 1 and subjects = "[subject_a, subject_c, subject_b]" and year = None]
  by (simp add: nth_DIGITS_1 has_marker_abc year_kept_abc)

text \<open>
  C10, as stated, fails: with a season of 20 the ranking returns the empty list, and no
  index error, when the search has no candidate or the year filter drops them all; the
  numeral is looked up only for a candidate that passed the filter (line 222).
\<close>

theorem season_out_of_table_counterexample:
  "get_title_from_filename ''Show.2019.S20'' = Inr (''show'', Some 2019, Some 20, None) \<and>
   GetSearchResults_subjects [] (Some 2019) (Some 20) = Inr [] \<and>
   GetSearchResults_subjects [subject_c] (Some 2019) (Some 20) = Inr []"
  by (simp add: show_2019_s20 subjects_season_bad list_get_DIGITS_out year_kept_abc)

text \<open>
  C10, amended: the numeral table has the 20 entries 0 to 19. With a season of 20 or
  more the ranking fails with an index error if and only if at least one candidate
  passes the year filter, and returns the empty list otherwise; with a season from 0 to
  19 it always returns a list.
\<close>

theorem season_out_of_table:
  "length DIGITS_TO_CHINESE_NUMBER = 20 \<and>
   (\<forall>subjects year n. 20 \<le> n \<longrightarrow>
      GetSearchResults_subjects subjects year (Some n) =
        (if \<exists>s\<in>set subjects. year_kept year s then Inl IndexError else Inr [])) \<and>
   (\<forall>subjects year n. 0 \<le> n \<and> n < 20 \<longrightarrow>
      (\<exists>out. GetSearchResults_subjects subjects year (Some n) = Inr out))"
  by (simp add: length_DIGITS subjects_season_bad list_get_DIGITS_out
      subjects_season_ok list_get_nth)

theorem season_out_of_table_witness:
  "GetSearchResults_subjects [subject_c, subject_a] (Some 2014) (Some 20) = Inl IndexError"
proof -
  have "GetSearchResults_subjects [subject_c, subject_a] (Some 2014) (Some 20) =
          (if \<exists>s\<in>set [subject_c, subject_a]. year_kept (Some 2014) s
           then Inl IndexError else Inr [])"
    using season_out_of_table by simp
  then show ?thesis by (simp add: year_kept_abc)
qed

section \<open>The cache\<close>

lemma cache_update_stats: "cache (update_stats k v) = cache v"
  by (simp add: update_stats_def split: option.splits)

lemma request_hit:
  assumes "valid_type type" and "cache f key = Some row_value"
  shows "request_cache_get cd key func type (f, env) =
           (decode_row cd type row_value,
            update_stats ''num_hit'' (update_stats ''num_query'' f), env)"
  using assms
  by (auto simp: request_cache_get_def cache_get_def valid_type_def get_db_def select_value_def
      on_conn_def commit_def close_connection_def Let_def)

lemma request_miss_ok:
  assumes "valid_type type" and "cache f key = None" and "func w = (Inr r, w')"
    and "encode_response cd type r = Inr (v, value_str)"
  shows "request_cache_get cd key func type (f, w, n) =
           (Inr v, insert_or_replace key value_str (update_stats ''num_query'' f), w', Suc n)"
  using assms
  by (auto simp: request_cache_get_def cache_get_def valid_type_def get_db_def select_value_def
      on_conn_def commit_def close_connection_def invoke_def Let_def)

lemma request_miss_fetch_error:
  assumes "valid_type type" and "cache f key = None" and "func w = (Inl e, w')"
  shows "request_cache_get cd key func type (f, w, n) = (Inl e, f, w', Suc n)"
  using assms
  by (auto simp: request_cache_get_def cache_get_def valid_type_def get_db_def select_value_def
      on_conn_def commit_def close_connection_def invoke_def Let_def)

lemma request_miss_payload_error:
  assumes "valid_type type" and "cache f key = None" and "func w = (Inr r, w')"
    and "encode_response cd type r = Inl e"
  shows "request_cache_get cd key func type (f, w, n) = (Inl e, f, w', Suc n)"
  using assms
  by (auto simp: request_cache_get_def cache_get_def valid_type_def get_db_def select_value_def
      on_conn_def commit_def close_connection_def invoke_def Let_def)

text \<open>A miss calls \<^verbatim>\<open>func\<close> once, whatever it answers.\<close>

lemma request_miss_env:
  assumes "valid_type type" and "cache f key = None"
  shows "snd (snd (request_cache_get cd key func type (f, w, n))) = (snd (func w), Suc n)"
proof (cases "func w")
  case (Pair r w')
  show ?thesis
  proof (cases r)
    case (Inl e)
    then show ?thesis using Pair assms by (simp add: request_miss_fetch_error)
  next
    case (Inr resp)
    show ?thesis
    proof (cases "encode_response cd type resp")
      case (Inl e)
      then show ?thesis using Pair Inr assms by (simp add: request_miss_payload_error)
    next
      case (Inr p)
      then show ?thesis using Pair \<open>r = Inr resp\<close> assms
        by (cases p) (simp add: request_miss_ok)
    qed
  qed
qed

lemma decode_encode:
  assumes "roundtrip cd" and "valid_type type"
    and "encode_response cd type r = Inr (v, value_str)"
  shows "decode_row cd type value_str = Inr v"
  using assms
  by (auto simp: roundtrip_def valid_type_def encode_response_def decode_row_def
      split: sum.splits)

text \<open>Requests that hit leave the world and the entries as they are.\<close>

lemma hits_state:
  assumes "valid_type type" and "cache f key = Some row_value"
  shows "\<exists>f'. after_requests cd key func type k (f, env) = (f', env) \<and> cache f' = cache f"
proof (induction k)
  case 0
  show ?case by (simp add: after_requests_def)
next
  case (Suc k)
  then obtain f' where f': "after_requests cd key func type k (f, env) = (f', env)"
     "cache f' = cache f" by blast
  then have "cache f' key = Some row_value" using assms by simp
  then have "request_cache_get cd key func type (f', env) =
      (decode_row cd type row_value, update_stats ''num_hit'' (update_stats ''num_query'' f'), env)"
    using assms(1) by (rule request_hit[rotated])
  then show ?case using f' by (simp add: after_requests_def cache_update_stats)
qed

lemma later_requests:
  assumes "valid_type type" and "cache f key = Some row_value"
  shows "\<exists>f''. request_cache_get cd key func type (after_requests cd key func type k (f, env))
                 = (decode_row cd type row_value, f'', env)"
proof -
  obtain f' where f': "after_requests cd key func type k (f, env) = (f', env)"
     "cache f' = cache f" using hits_state[OF assms] by blast
  then have "cache f' key = Some row_value" using assms by simp
  then have "request_cache_get cd key func type (f', env) =
      (decode_row cd type row_value, update_stats ''num_hit'' (update_stats ''num_query'' f'), env)"
    using assms(1) by (rule request_hit[rotated])
  then show ?thesis using f' by simp
qed

lemma roundtrip_plain: "roundtrip plain_codecs"
proof -
  have "of_nat (of_char (char_of (unat b) :: char)) = b" for b :: "8 word"
  proof -
    have "unat b < 2 ^ LENGTH(8)" by (rule unsigned_less)
    then have "unat b mod 256 = unat b" by simp
    then show ?thesis by simp
  qed
  then show ?thesis by (simp add: roundtrip_def plain_codecs_def comp_def)
qed

lemma valid_json: "valid_type ''json''"
  by (simp add: valid_type_def)

lemma valid_bytes: "valid_type ''bytes''"
  by (simp add: valid_type_def)

text \<open>What lines 77 to 84 and 87 to 97 compute for the two types of the assertion.\<close>

lemma decode_row_valid:
  assumes "valid_type type"
  shows "decode_row cd type row_value =
           (if type = ''json''
            then (case json_loads cd row_value of Inl e \<Rightarrow> Inl e | Inr j \<Rightarrow> Inr (Json j))
            else (case b64_decode cd row_value of Inl e \<Rightarrow> Inl e | Inr b \<Rightarrow> Inr (Bytes b)))"
  using assms by (auto simp: decode_row_def valid_type_def split: sum.splits)

lemma encode_response_json:
  "resp_json r = Inr j \<Longrightarrow> encode_response cd ''json'' r = Inr (Json j, json_dumps cd j)"
  by (simp add: encode_response_def)

lemma encode_response_bytes:
  "encode_response cd ''bytes'' r = Inr (Bytes (resp_content r), b64_encode cd (resp_content r))"
  by (simp add: encode_response_def)

text \<open>A miss that stores a row, and the lookups after it.\<close>

lemma request_miss_then_hits:
  assumes vt: "valid_type type" and rt: "roundtrip cd"
    and miss: "cache f key = None" and fw: "func w = (Inr r, w')"
    and enc: "encode_response cd type r = Inr (v, value_str)"
  shows "\<exists>f'. request_cache_get cd key func type (f, w, n) = (Inr v, f', w', Suc n) \<and>
              cache f' = (cache f)(key \<mapsto> value_str) \<and>
              (\<forall>k func2. \<exists>f''.
                 request_cache_get cd key func2 type
                   (after_requests cd key func2 type k (f', w', Suc n))
                 = (Inr v, f'', w', Suc n))"
proof -
  let ?f' = "insert_or_replace key value_str (update_stats ''num_query'' f)"
  have req: "request_cache_get cd key func type (f, w, n) = (Inr v, ?f', w', Suc n)"
    using vt miss fw enc by (simp add: request_miss_ok)
  have c: "cache ?f' = (cache f)(key \<mapsto> value_str)"
    by (simp add: insert_or_replace_def cache_update_stats)
  then have stored: "cache ?f' key = Some value_str" by simp
  have dec: "decode_row cd type value_str = Inr v"
    using rt vt enc by (rule decode_encode)
  have "\<exists>f''. request_cache_get cd key func2 type
                 (after_requests cd key func2 type k (?f', w', Suc n))
               = (Inr v, f'', w', Suc n)" for k func2
    using later_requests[OF vt stored, of cd func2 k "(w', Suc n)"] dec by simp
  with req c show ?thesis by blast
qed

text \<open>
  C3: with a type that passes the assertion and codecs that round-trip. A lookup of a
  stored key returns the row decoded as the type asks (\<^verbatim>\<open>json.loads\<close> of it, or its
  base64 decoding) without a call of \<^verbatim>\<open>func\<close>, and leaves the entries as they are. A
  lookup of an absent key calls \<^verbatim>\<open>func\<close> exactly once. When that call answers, the
  lookup returns the value of the response (\<^verbatim>\<open>r.json()\<close>, or \<^verbatim>\<open>r.content\<close>), stores
  the encoding of that value (\<^verbatim>\<open>json.dumps\<close> of it, or its base64 text) under the key,
  and every later lookup of the key returns the same value without a call.
\<close>

theorem cache_get_read_through:
  assumes "valid_type type" and "roundtrip cd"
  shows "(\<forall>row_value. cache f key = Some row_value \<longrightarrow>
            (\<exists>f'. request_cache_get cd key func type (f, w, n)
                     = ((if type = ''json''
                         then (case json_loads cd row_value of
                                 Inl e \<Rightarrow> Inl e | Inr j \<Rightarrow> Inr (Json j))
                         else (case b64_decode cd row_value of
                                 Inl e \<Rightarrow> Inl e | Inr b \<Rightarrow> Inr (Bytes b))), f', w, n) \<and>
                   cache f' = cache f)) \<and>
         (cache f key = None \<longrightarrow>
            snd (snd (request_cache_get cd key func type (f, w, n))) = (snd (func w), Suc n)) \<and>
         (\<forall>r w' j.
            type = ''json'' \<and> cache f key = None \<and> func w = (Inr r, w') \<and> resp_json r = Inr j \<longrightarrow>
            (\<exists>f'. request_cache_get cd key func type (f, w, n) = (Inr (Json j), f', w', Suc n) \<and>
                   cache f' = (cache f)(key \<mapsto> json_dumps cd j) \<and>
                   (\<forall>k func2. \<exists>f''.
                      request_cache_get cd key func2 type
                        (after_requests cd key func2 type k (f', w', Suc n))
                      = (Inr (Json j), f'', w', Suc n)))) \<and>
         (\<forall>r w'.
            type = ''bytes'' \<and> cache f key = None \<and> func w = (Inr r, w') \<longrightarrow>
            (\<exists>f'. request_cache_get cd key func type (f, w, n)
                     = (Inr (Bytes (resp_content r)), f', w', Suc n) \<and>
                   cache f' = (cache f)(key \<mapsto> b64_encode cd (resp_content r)) \<and>
                   (\<forall>k func2. \<exists>f''.
                      request_cache_get cd key func2 type
                        (after_requests cd key func2 type k (f', w', Suc n))
                      = (Inr (Bytes (resp_content r)), f'', w', Suc n))))"
proof (intro conjI allI impI)
  fix row_value assume "cache f key = Some row_value"
  then have "request_cache_get cd key func type (f, w, n) =
      (decode_row cd type row_value, update_stats ''num_hit'' (update_stats ''num_query'' f), w, n)"
    using assms(1) by (simp add: request_hit)
  then show "\<exists>f'. request_cache_get cd key func type (f, w, n)
                     = ((if type = ''json''
                         then (case json_loads cd row_value of
                                 Inl e \<Rightarrow> Inl e | Inr j \<Rightarrow> Inr (Json j))
                         else (case b64_decode cd row_value of
                                 Inl e \<Rightarrow> Inl e | Inr b \<Rightarrow> Inr (Bytes b))), f', w, n) \<and>
                   cache f' = cache f"
    by (simp add: decode_row_valid[OF assms(1)] cache_update_stats)
next
  assume "cache f key = None"
  with assms(1) show "snd (snd (request_cache_get cd key func type (f, w, n)))
                        = (snd (func w), Suc n)"
    by (rule request_miss_env)
next
  fix r w' j
  assume a: "type = ''json'' \<and> cache f key = None \<and> func w = (Inr r, w') \<and> resp_json r = Inr j"
  then have "encode_response cd type r = Inr (Json j, json_dumps cd j)"
    by (simp add: encode_response_json)
  with assms a
  show "\<exists>f'. request_cache_get cd key func type (f, w, n) = (Inr (Json j), f', w', Suc n) \<and>
              cache f' = (cache f)(key \<mapsto> json_dumps cd j) \<and>
              (\<forall>k func2. \<exists>f''.
                 request_cache_get cd key func2 type
                   (after_requests cd key func2 type k (f', w', Suc n))
                 = (Inr (Json j), f'', w', Suc n))"
    by (intro request_miss_then_hits) simp_all
next
  fix r w'
  assume a: "type = ''bytes'' \<and> cache f key = None \<and> func w = (Inr r, w')"
  then have "encode_response cd type r
               = Inr (Bytes (resp_content r), b64_encode cd (resp_content r))"
    by (simp add: encode_response_bytes)
  with assms a
  show "\<exists>f'. request_cache_get cd key func type (f, w, n)
                = (Inr (Bytes (resp_content r)), f', w', Suc n) \<and>
              cache f' = (cache f)(key \<mapsto> b64_encode cd (resp_content r)) \<and>
              (\<forall>k func2. \<exists>f''.
                 request_cache_get cd key func2 type
                   (after_requests cd key func2 type k (f', w', Suc n))
                 = (Inr (Bytes (resp_content r)), f'', w', Suc n))"
    by (intro request_miss_then_hits) simp_all
qed

theorem cache_get_read_through_witness:
  "\<exists>f1 f2 g1 g2.
     request_cache_get plain_codecs ''search:sense8'' fetch_ok ''json'' (fresh_db, 0, 0)
       = (Inr (Json ''[1, 2]''), f1, 1, 1) \<and>
     cache f1 ''search:sense8'' = Some ''[1, 2]'' \<and>
     request_cache_get plain_codecs ''search:sense8'' fetch_fails ''json'' (f1, 1, 1)
       = (Inr (Json ''[1, 2]''), f2, 1, 1) \<and>
     request_cache_get plain_codecs ''image:u'' fetch_ok ''bytes'' (fresh_db, 0, 0)
       = (Inr (Bytes [0, 255]), g1, 1, 1) \<and>
     cache g1 ''image:u'' = Some [CHR 0x00, CHR 0xFF] \<and>
     request_cache_get plain_codecs ''image:u'' fetch_fails ''bytes'' (g1, 1, 1)
       = (Inr (Bytes [0, 255]), g2, 1, 1)"
proof -
  let ?r = "\<lparr>resp_json = Inr ''[1, 2]'', resp_content = [0, 255], resp_text = ''[1, 2]''\<rparr>
            :: string response"
  have fw: "fetch_ok 0 = (Inr ?r, Suc 0)" by (simp add: fetch_ok_def)
  have empty: "cache fresh_db k = None" for k by (simp add: fresh_db_def)
  have enc: "b64_encode plain_codecs [0, 255] = [CHR 0x00, CHR 0xFF]"
     "json_dumps plain_codecs ''[1, 2]'' = ''[1, 2]''"
    by code_simp+
  note js = cache_get_read_through
            [OF valid_json roundtrip_plain, where f = fresh_db and key = "''search:sense8''"
               and func = fetch_ok and w = 0 and n = 0]
  from js have "\<forall>r w' j.
         ''json'' = ''json'' \<and> cache fresh_db ''search:sense8'' = None \<and>
         fetch_ok 0 = (Inr r, w') \<and> resp_json r = Inr j \<longrightarrow>
         (\<exists>f'. request_cache_get plain_codecs ''search:sense8'' fetch_ok ''json'' (fresh_db, 0, 0)
                  = (Inr (Json j), f', w', Suc 0) \<and>
               cache f' = (cache fresh_db)(''search:sense8'' \<mapsto> json_dumps plain_codecs j) \<and>
               (\<forall>k func2. \<exists>f''.
                   request_cache_get plain_codecs ''search:sense8'' func2 ''json''
                     (after_requests plain_codecs ''search:sense8'' func2 ''json'' k (f', w', Suc 0))
                   = (Inr (Json j), f'', w', Suc 0)))"
    by (elim conjE)
  from this[rule_format, of ?r "Suc 0" "''[1, 2]''"] fw empty obtain f1 where f1:
      "request_cache_get plain_codecs ''search:sense8'' fetch_ok ''json'' (fresh_db, 0, 0)
         = (Inr (Json ''[1, 2]''), f1, Suc 0, Suc 0)"
      "cache f1 = (cache fresh_db)(''search:sense8'' \<mapsto> json_dumps plain_codecs ''[1, 2]'')"
      "\<forall>k func2. \<exists>f''.
          request_cache_get plain_codecs ''search:sense8'' func2 ''json''
            (after_requests plain_codecs ''search:sense8'' func2 ''json'' k (f1, Suc 0, Suc 0))
          = (Inr (Json ''[1, 2]''), f'', Suc 0, Suc 0)"
    by auto
  from f1(3)[rule_format, of fetch_fails 0] obtain f2 where f2:
      "request_cache_get plain_codecs ''search:sense8'' fetch_fails ''json'' (f1, Suc 0, Suc 0)
       = (Inr (Json ''[1, 2]''), f2, Suc 0, Suc 0)"
    by (auto simp: after_requests_def)
  note bs = cache_get_read_through
            [OF valid_bytes roundtrip_plain, where f = fresh_db and key = "''image:u''"
               and func = fetch_ok and w = 0 and n = 0]
  from bs have "\<forall>r w'.
         ''bytes'' = ''bytes'' \<and> cache fresh_db ''image:u'' = None \<and> fetch_ok 0 = (Inr r, w') \<longrightarrow>
         (\<exists>f'. request_cache_get plain_codecs ''image:u'' fetch_ok ''bytes'' (fresh_db, 0, 0)
                  = (Inr (Bytes (resp_content r)), f', w', Suc 0) \<and>
               cache f' = (cache fresh_db)(''image:u'' \<mapsto> b64_encode plain_codecs (resp_content r)) \<and>
               (\<forall>k func2. \<exists>f''.
                   request_cache_get plain_codecs ''image:u'' func2 ''bytes''
                     (after_requests plain_codecs ''image:u'' func2 ''bytes'' k (f', w', Suc 0))
                   = (Inr (Bytes (resp_content r)), f'', w', Suc 0)))"
    by (elim conjE)
  from this[rule_format, of ?r "Suc 0"] fw empty obtain g1 where g1:
      "request_cache_get plain_codecs ''image:u'' fetch_ok ''bytes'' (fresh_db, 0, 0)
         = (Inr (Bytes [0, 255]), g1, Suc 0, Suc 0)"
      "cache g1 = (cache fresh_db)(''image:u'' \<mapsto> b64_encode plain_codecs [0, 255])"
      "\<forall>k func2. \<exists>f''.
          request_cache_get plain_codecs ''image:u'' func2 ''bytes''
            (after_requests plain_codecs ''image:u'' func2 ''bytes'' k (g1, Suc 0, Suc 0))
          = (Inr (Bytes [0, 255]), f'', Suc 0, Suc 0)"
    by auto
  from g1(3)[rule_format, of fetch_fails 0] obtain g2 where g2:
      "request_cache_get plain_codecs ''image:u'' fetch_fails ''bytes'' (g1, Suc 0, Suc 0)
       = (Inr (Bytes [0, 255]), g2, Suc 0, Suc 0)"
    by (auto simp: after_requests_def)
  have "cache f1 ''search:sense8'' = Some ''[1, 2]''" using f1(2) enc(2) by simp
  moreover have "cache g1 ''image:u'' = Some [CHR 0x00, CHR 0xFF]" using g1(2) enc(1) by simp
  ultimately show ?thesis using f1(1) f2 g1(1) g2 by auto
qed

text \<open>
  C5: when the key is absent and \<^verbatim>\<open>func\<close> raises, the lookup ends with that error and
  the file is as it was before (no entry is stored, and the uncommitted update of the
  counter is lost with the connection); a later lookup of the key on that file calls
  its \<^verbatim>\<open>func\<close> again.
\<close>

theorem cache_get_fetch_failure:
  assumes "valid_type type" and "cache f key = None" and "func w = (Inl e, w')"
  shows "request_cache_get cd key func type (f, w, n) = (Inl e, f, w', Suc n) \<and>
         (\<forall>func2 w2 n2.
            snd (snd (request_cache_get cd key func2 type (f, w2, n2))) = (snd (func2 w2), Suc n2))"
  using assms by (simp add: request_miss_fetch_error request_miss_env)

theorem cache_get_fetch_failure_witness:
  "request_cache_get plain_codecs ''search:sense8'' fetch_fails ''json'' (fresh_db, 0, 0)
     = (Inl RequestException, fresh_db, 1, 1) \<and>
   snd (snd (request_cache_get plain_codecs ''search:sense8'' fetch_ok ''json'' (fresh_db, 1, 1)))
     = (2, 2)"
proof -
  have a: "cache fresh_db ''search:sense8'' = None" by (simp add: fresh_db_def)
  have b: "fetch_fails 0 = (Inl RequestException, 1)" by (simp add: fetch_fails_def)
  have "request_cache_get plain_codecs ''search:sense8'' fetch_fails ''json'' (fresh_db, 0, 0)
          = (Inl RequestException, fresh_db, 1, Suc 0) \<and>
        (\<forall>func2 (w2 :: nat) n2.
            snd (snd (request_cache_get plain_codecs ''search:sense8'' func2 ''json''
                        (fresh_db, w2, n2))) = (snd (func2 w2), Suc n2))"
    using valid_json a b by (rule cache_get_fetch_failure)
  then have "request_cache_get plain_codecs ''search:sense8'' fetch_fails ''json'' (fresh_db, 0, 0)
          = (Inl RequestException, fresh_db, 1, Suc 0) \<and>
        snd (snd (request_cache_get plain_codecs ''search:sense8'' fetch_ok ''json''
                    (fresh_db, 1, 1))) = (snd (fetch_ok 1), Suc 1)"
    by blast
  then show ?thesis by (simp add: fetch_ok_def)
qed

text \<open>
  C4: the claim is that every lookup adds 1 to the query counter, from the state that
  the initialization creates. \<^verbatim>\<open>get_db\<close> creates the table of counters without a row,
  and the \<^verbatim>\<open>UPDATE\<close> statements of lines 73 and 75 change only rows that exist: after a
  lookup on a new file, whatever the key and the outcome, the table is still empty.
\<close>

theorem counters_not_seeded:
  "stats (fst (snd (request_cache_get cd key func type (fresh_db, env)))) = Map.empty"
  by (auto simp: request_cache_get_def cache_get_def get_db_def select_value_def
      on_conn_def commit_def close_connection_def invoke_def Let_def fresh_db_def update_stats_def
      insert_or_replace_def split: prod.splits sum.splits option.splits)


end
